theory Spec2Isabelle
  imports Main "HOL-Library.Word"
begin

unbundle bit_operations_syntax

section \<open>The EncryptedGuessingGame contract\<close>

text \<open>
  A shallow embedding of \<^verbatim>\<open>contract EncryptedGuessingGame\<close> (Solidity \<^verbatim>\<open>^0.8.24\<close>).
  Every external function of the contract becomes a function from the call context and
  the state before the call to either the error the call reverts with or the returned
  value and the state after the call.

  Solidity's value types are machine words: \<^verbatim>\<open>uint256\<close> and \<^verbatim>\<open>bytes32\<close> are 256-bit
  words, \<^verbatim>\<open>address\<close> is a 160-bit word, \<^verbatim>\<open>uint32\<close> a 32-bit word. Arithmetic on them is
  checked since Solidity 0.8: an overflowing \<^verbatim>\<open>++\<close> and an underflowing \<^verbatim>\<open>-\<close> revert with
  \<^verbatim>\<open>Panic(0x11)\<close>, which the model has as the error \<open>Panic\<close>.
\<close>

type_synonym uint256 = "256 word"
type_synonym bytes32 = "256 word"
type_synonym uint32 = "32 word"
type_synonym address = "160 word"
type_synonym byte = "8 word"

subsection \<open>The encrypted-integer library\<close>

text \<open>
  The contract imports \<^verbatim>\<open>FHE, ebool, euint32, externalEuint32\<close> from the library
  \<^verbatim>\<open>@fhevm/solidity\<close>, which is not part of the repository. In Solidity an \<^verbatim>\<open>euint32\<close> is a
  handle that names a ciphertext held by the library. The model pairs the handle with
  the plaintext the ciphertext decrypts to, so that "decrypts to" is the field \<open>clear\<close>;
  the contract never reads that field other than through the library's operations.
  The zero handle of an unwritten storage slot is \<open>Uninitialized\<close>.
\<close>

datatype handle = Uninitialized | Computed nat | External bytes32

record euint32 =
  handle :: handle
  clear :: uint32

record ebool =
  bhandle :: handle
  bclear :: bool

type_synonym externalEuint32 = bytes32

text \<open>
  The library's own state, as far as the contract touches it: the supply of handles for
  new ciphertexts and the access-control list of persistent read grants
  (ciphertext handle, identity).
\<close>

record fhe =
  counter :: nat
  acl :: "(handle \<times> address) set"

text \<open>
  Modelled from the spec: the operations of the external encrypted-integer capability
  (\<^verbatim>\<open>FHE.asEuint32\<close>, \<^verbatim>\<open>FHE.gt\<close>, \<^verbatim>\<open>FHE.eq\<close>, \<^verbatim>\<open>FHE.sub\<close>, \<^verbatim>\<open>FHE.select\<close>, \<^verbatim>\<open>FHE.allow\<close>,
  \<^verbatim>\<open>FHE.allowThis\<close>, \<^verbatim>\<open>FHE.fromExternal\<close>), whose code is missing from the sources.
  The spec lists them as \<^verbatim>\<open>encrypt\<close>, homomorphic \<^verbatim>\<open>equal\<close>, \<^verbatim>\<open>greaterThan\<close>,
  \<^verbatim>\<open>subtract\<close>, \<^verbatim>\<open>select(condition, a, b)\<close> over ciphertexts, "plus an access-control
  mechanism granting specific identities decryption rights over specific ciphertexts".
  Each operation yields a new ciphertext whose plaintext is the operation applied to
  the plaintexts of its arguments; subtraction is that of \<^verbatim>\<open>uint32\<close>, modulo \<open>2 ^ 32\<close>.
  The permission checks the library makes on the operands of an operation are not
  modelled.
\<close>

definition fresh :: "fhe \<Rightarrow> handle \<times> fhe" where
  "fresh f = (Computed (counter f), f\<lparr>counter := Suc (counter f)\<rparr>)"

definition FHE_asEuint32 :: "uint32 \<Rightarrow> fhe \<Rightarrow> euint32 \<times> fhe" where
  "FHE_asEuint32 v f = (let (h, f') = fresh f in (\<lparr>handle = h, clear = v\<rparr>, f'))"

definition FHE_gt :: "euint32 \<Rightarrow> euint32 \<Rightarrow> fhe \<Rightarrow> ebool \<times> fhe" where
  "FHE_gt a b f = (let (h, f') = fresh f in (\<lparr>bhandle = h, bclear = (clear b < clear a)\<rparr>, f'))"

definition FHE_eq :: "euint32 \<Rightarrow> euint32 \<Rightarrow> fhe \<Rightarrow> ebool \<times> fhe" where
  "FHE_eq a b f = (let (h, f') = fresh f in (\<lparr>bhandle = h, bclear = (clear a = clear b)\<rparr>, f'))"

definition FHE_sub :: "euint32 \<Rightarrow> euint32 \<Rightarrow> fhe \<Rightarrow> euint32 \<times> fhe" where
  "FHE_sub a b f = (let (h, f') = fresh f in (\<lparr>handle = h, clear = clear a - clear b\<rparr>, f'))"

definition FHE_select :: "ebool \<Rightarrow> euint32 \<Rightarrow> euint32 \<Rightarrow> fhe \<Rightarrow> euint32 \<times> fhe" where
  "FHE_select c a b f =
     (let (h, f') = fresh f in (\<lparr>handle = h, clear = (if bclear c then clear a else clear b)\<rparr>, f'))"

definition FHE_allow :: "euint32 \<Rightarrow> address \<Rightarrow> fhe \<Rightarrow> fhe" where
  "FHE_allow c a f = f\<lparr>acl := insert (handle c, a) (acl f)\<rparr>"

subsection \<open>The call context\<close>

text \<open>
  What the host gives a call: \<^verbatim>\<open>msg.sender\<close>, \<^verbatim>\<open>msg.value\<close>, \<^verbatim>\<open>block.timestamp\<close>,
  \<^verbatim>\<open>block.number\<close>, \<^verbatim>\<open>blockhash\<close>, \<^verbatim>\<open>address(this)\<close>, the built-in \<^verbatim>\<open>keccak256\<close>, the
  library's verdict on an encrypted input and its proof (the plaintext of the input when
  the proof is accepted, \<open>None\<close> when \<^verbatim>\<open>FHE.fromExternal\<close> reverts), and the outcome of
  the value transfer \<^verbatim>\<open>recipient.call{ value: amount }("")\<close>. The hash, the verifier and
  the transfer are parameters: the theorems hold for every choice of them.
\<close>

record env =
  msg_sender :: address
  msg_value :: uint256
  block_timestamp :: uint256
  block_number :: uint256
  blockhash :: "uint256 \<Rightarrow> bytes32"
  address_this :: address
  keccak256 :: "byte list \<Rightarrow> bytes32"
  verifyInput :: "externalEuint32 \<Rightarrow> byte list \<Rightarrow> uint32 option"
  call_value :: "address \<Rightarrow> uint256 \<Rightarrow> bool"

definition FHE_allowThis :: "env \<Rightarrow> euint32 \<Rightarrow> fhe \<Rightarrow> fhe" where
  "FHE_allowThis e c f = FHE_allow c (address_this e) f"

subsection \<open>Errors, events and storage\<close>

text \<open>
  The six custom errors of the contract, the arithmetic panic of checked arithmetic, and
  the revert of \<^verbatim>\<open>FHE.fromExternal\<close> on an input whose proof is rejected.
\<close>

datatype error =
    InvalidEntryFee
  | PlayerNotJoined
  | InvalidRecipient
  | InvalidAmount
  | WithdrawalFailed
  | NotOwner
  | Panic
  | InputProofRejected

datatype event =
    PlayerJoined address uint256
  | GuessEvaluated address uint256
  | Withdrawal address uint256

record PlayerState =
  secret :: euint32
  lastResult :: euint32
  joined :: bool

text \<open>
  The storage of the contract: \<^verbatim>\<open>_owner\<close>, \<^verbatim>\<open>_nonce\<close>, \<^verbatim>\<open>_players\<close> and \<^verbatim>\<open>_rounds\<close> (an
  Isabelle name cannot start with an underscore, so they are \<open>s_owner\<close>, \<open>s_nonce\<close>,
  \<open>s_players\<close>, \<open>s_rounds\<close>). A Solidity mapping gives the zero value at a key never
  written: it is a total function. With the storage travel the ether the contract
  holds (\<^verbatim>\<open>address(this).balance\<close>, a number of wei that the host keeps below \<open>2 ^ 256\<close>),
  the events emitted so far, oldest first, and the state of the encrypted-integer
  library.
\<close>

record game =
  s_owner :: address
  s_nonce :: uint256
  s_players :: "address \<Rightarrow> PlayerState"
  s_rounds :: "address \<Rightarrow> uint256"
  balance :: nat
  events :: "event list"
  coprocessor :: fhe

definition ENTRY_FEE :: uint256 where
  "ENTRY_FEE = 1000000000000000"

definition zero_euint32 :: euint32 where
  "zero_euint32 = \<lparr>handle = Uninitialized, clear = 0\<rparr>"

definition zero_PlayerState :: PlayerState where
  "zero_PlayerState = \<lparr>secret = zero_euint32, lastResult = zero_euint32, joined = False\<rparr>"

text \<open>
  \<^verbatim>\<open>constructor() { _owner = msg.sender; }\<close>: every other slot is zero. The ether already at
  the address and the library's state at deployment are given.
\<close>

definition constructor :: "env \<Rightarrow> nat \<Rightarrow> fhe \<Rightarrow> game" where
  "constructor e bal f =
     \<lparr>s_owner = msg_sender e, s_nonce = 0, s_players = (\<lambda>_. zero_PlayerState),
      s_rounds = (\<lambda>_. 0), balance = bal, events = [], coprocessor = f\<rparr>"

definition emit :: "event \<Rightarrow> game \<Rightarrow> game" where
  "emit ev s = s\<lparr>events := events s @ [ev]\<rparr>"

subsection \<open>Secret derivation\<close>

text \<open>
  \<^verbatim>\<open>abi.encodePacked(block.timestamp, blockhash(block.number - 1), player, _nonce)\<close>
  concatenates the big-endian bytes of its arguments without padding: 32 bytes for a
  \<^verbatim>\<open>uint256\<close> or a \<^verbatim>\<open>bytes32\<close>, 20 bytes for an \<^verbatim>\<open>address\<close>.
\<close>

definition be_bytes :: "nat \<Rightarrow> 'a::len word \<Rightarrow> byte list" where
  "be_bytes n w = map (\<lambda>i. ucast (drop_bit (8 * i) w)) (rev [0..<n])"

definition abi_encodePacked :: "uint256 \<Rightarrow> bytes32 \<Rightarrow> address \<Rightarrow> uint256 \<Rightarrow> byte list" where
  "abi_encodePacked ts bh player n = be_bytes 32 ts @ be_bytes 32 bh @ be_bytes 20 player @ be_bytes 32 n"

text \<open>
  The spec's description of the hashed input, stated on the bytes alone and without the
  packing function: "the concatenation of those four values" (block timestamp, previous
  block's hash, participant identity, nonce). \<open>be_word\<close> reads a byte string as a
  big-endian number. A byte string is the concatenation of the four values when it has
  32 + 32 + 20 + 32 = 116 bytes and its four segments read as the timestamp, the block
  hash, the identity and the nonce.
\<close>

definition be_word :: "byte list \<Rightarrow> 'a::len word" where
  "be_word bs = foldl (\<lambda>acc b. push_bit 8 acc OR ucast b) 0 bs"

definition concatenation_of :: "byte list \<Rightarrow> uint256 \<Rightarrow> bytes32 \<Rightarrow> address \<Rightarrow> uint256 \<Rightarrow> bool" where
  "concatenation_of bs ts bh player n \<longleftrightarrow>
     length bs = 116 \<and>
     be_word (take 32 bs) = ts \<and>
     be_word (take 32 (drop 32 bs)) = bh \<and>
     be_word (take 20 (drop 64 bs)) = player \<and>
     be_word (drop 84 bs) = n"

text \<open>
  \<^verbatim>\<open>_generateSecret\<close>: \<^verbatim>\<open>_nonce++\<close>, then the hash of the packed block timestamp, hash of
  the previous block, player and new nonce, reduced modulo 20, plus 1, cast to
  \<^verbatim>\<open>uint32\<close>. The increment panics at the largest \<^verbatim>\<open>uint256\<close> and \<^verbatim>\<open>block.number - 1\<close>
  panics in block 0.
\<close>

definition generateSecret :: "env \<Rightarrow> address \<Rightarrow> game \<Rightarrow> error + (uint32 \<times> game)" where
  "generateSecret e player s =
     (if s_nonce s = - 1 then Inl Panic
      else let s1 = s\<lparr>s_nonce := s_nonce s + 1\<rparr> in
        if block_number e = 0 then Inl Panic
        else let randomness = keccak256 e (abi_encodePacked (block_timestamp e)
                                (blockhash e (block_number e - 1)) player (s_nonce s1))
             in Inr (ucast ((randomness mod 20) + 1), s1))"

subsection \<open>The external functions\<close>

text \<open>
  \<^verbatim>\<open>joinGame\<close> is payable: the host credits \<^verbatim>\<open>msg.value\<close> to the contract before the body
  runs. The body follows the source statement by statement.
\<close>

definition joinGame :: "env \<Rightarrow> game \<Rightarrow> error + (euint32 \<times> game)" where
  "joinGame e s0 =
     (let s = s0\<lparr>balance := balance s0 + unat (msg_value e)\<rparr> in
      if msg_value e \<noteq> ENTRY_FEE then Inl InvalidEntryFee
      else case generateSecret e (msg_sender e) s of
        Inl err \<Rightarrow> Inl err
      | Inr (secretValue, s1) \<Rightarrow>
          let (encryptedSecret, f1) = FHE_asEuint32 secretValue (coprocessor s1);
              (resetResult, f2) = FHE_asEuint32 0 f1;
              state = s_players s1 (msg_sender e);
              state = state\<lparr>secret := encryptedSecret\<rparr>;
              state = state\<lparr>lastResult := resetResult\<rparr>;
              state = state\<lparr>joined := True\<rparr>;
              s2 = s1\<lparr>s_players := (s_players s1)(msg_sender e := state)\<rparr>;
              f3 = FHE_allowThis e encryptedSecret f2;
              f4 = FHE_allowThis e resetResult f3;
              s3 = s2\<lparr>coprocessor := f4\<rparr>
          in if s_rounds s3 (msg_sender e) = - 1 then Inl Panic
             else let round = s_rounds s3 (msg_sender e) + 1;
                      s4 = s3\<lparr>s_rounds := (s_rounds s3)(msg_sender e := round)\<rparr>;
                      s5 = emit (PlayerJoined (msg_sender e) round) s4
                  in Inr (encryptedSecret, s5))"

text \<open>
  \<^verbatim>\<open>submitGuess\<close>. The nested library calls are sequenced in the order Solidity evaluates
  them, arguments left to right. \<^verbatim>\<open>submitGuess\<close> and \<^verbatim>\<open>withdraw\<close> are not payable: a call
  that carries ether is turned away before the body runs, and the model is of the calls
  that reach the body.
\<close>

definition submitGuess :: "env \<Rightarrow> externalEuint32 \<Rightarrow> byte list \<Rightarrow> game \<Rightarrow> error + (unit \<times> game)" where
  "submitGuess e encryptedGuess inputProof s =
     (let state = s_players s (msg_sender e) in
      if \<not> joined state then Inl PlayerNotJoined
      else case verifyInput e encryptedGuess inputProof of
        None \<Rightarrow> Inl InputProofRejected
      | Some g \<Rightarrow>
          let guessValue = \<lparr>handle = External encryptedGuess, clear = g\<rparr>;
              secretValue = secret state;
              f = coprocessor s;
              (guessGreaterThanSecret, f) = FHE_gt guessValue secretValue f;
              (hi, f) = FHE_select guessGreaterThanSecret guessValue secretValue f;
              (lo, f) = FHE_select guessGreaterThanSecret secretValue guessValue f;
              (difference, f) = FHE_sub hi lo f;
              (k0, f) = FHE_asEuint32 0 f;
              (is0, f) = FHE_eq difference k0 f;
              (r1, f) = FHE_asEuint32 1 f;
              (k1, f) = FHE_asEuint32 1 f;
              (is1, f) = FHE_eq difference k1 f;
              (r2, f) = FHE_asEuint32 2 f;
              (k2, f) = FHE_asEuint32 2 f;
              (is2, f) = FHE_eq difference k2 f;
              (r3, f) = FHE_asEuint32 3 f;
              (r4, f) = FHE_asEuint32 4 f;
              (inner, f) = FHE_select is2 r3 r4 f;
              (middle, f) = FHE_select is1 r2 inner f;
              (finalResult, f) = FHE_select is0 r1 middle f;
              s1 = s\<lparr>s_players := (s_players s)(msg_sender e := state\<lparr>lastResult := finalResult\<rparr>)\<rparr>;
              f = FHE_allowThis e finalResult f;
              f = FHE_allow finalResult (msg_sender e) f;
              s2 = s1\<lparr>coprocessor := f\<rparr>
          in Inr ((), emit (GuessEvaluated (msg_sender e) (s_rounds s2 (msg_sender e))) s2))"

text \<open>The view functions.\<close>

definition getLatestResult :: "game \<Rightarrow> address \<Rightarrow> euint32" where
  "getLatestResult s player = lastResult (s_players s player)"

definition getEncryptedSecret :: "game \<Rightarrow> address \<Rightarrow> euint32" where
  "getEncryptedSecret s player = secret (s_players s player)"

definition hasJoined :: "game \<Rightarrow> address \<Rightarrow> bool" where
  "hasJoined s player = joined (s_players s player)"

definition getRound :: "game \<Rightarrow> address \<Rightarrow> uint256" where
  "getRound s player = s_rounds s player"

definition entryFee :: uint256 where
  "entryFee = ENTRY_FEE"

definition owner :: "game \<Rightarrow> address" where
  "owner s = s_owner s"

text \<open>
  \<^verbatim>\<open>withdraw\<close> with its modifier \<^verbatim>\<open>onlyOwner\<close>, which runs before the body. The transfer
  moves \<^verbatim>\<open>amount\<close> wei out of the contract when the recipient accepts it; what the
  recipient's own code does besides accepting or rejecting is outside the model.
\<close>

definition withdraw :: "env \<Rightarrow> address \<Rightarrow> uint256 \<Rightarrow> game \<Rightarrow> error + (unit \<times> game)" where
  "withdraw e recipient amount s =
     (if msg_sender e \<noteq> s_owner s then Inl NotOwner
      else if recipient = 0 then Inl InvalidRecipient
      else if amount = 0 \<or> unat amount > balance s then Inl InvalidAmount
      else let success = call_value e recipient amount in
        if \<not> success then Inl WithdrawalFailed
        else Inr ((), emit (Withdrawal recipient amount) (s\<lparr>balance := balance s - unat amount\<rparr>)))"

subsection \<open>Transactions\<close>

text \<open>
  A call that reverts leaves the state as it was before the call: the host discards every
  write of a reverted call. \<open>transact\<close> gives the outcome of a call and the state after it.
\<close>

definition transact :: "(game \<Rightarrow> error + ('a \<times> game)) \<Rightarrow> game \<Rightarrow> (error + 'a) \<times> game" where
  "transact f s = (case f s of Inl err \<Rightarrow> (Inl err, s) | Inr (r, s') \<Rightarrow> (Inr r, s'))"

datatype call =
    JoinGame
  | SubmitGuess externalEuint32 "byte list"
  | Withdraw address uint256

fun step :: "env \<times> call \<Rightarrow> game \<Rightarrow> game" where
  "step (e, JoinGame) s = snd (transact (joinGame e) s)"
| "step (e, SubmitGuess encryptedGuess inputProof) s = snd (transact (submitGuess e encryptedGuess inputProof) s)"
| "step (e, Withdraw recipient amount) s = snd (transact (withdraw e recipient amount) s)"

fun run :: "(env \<times> call) list \<Rightarrow> game \<Rightarrow> game" where
  "run [] s = s"
| "run (c # cs) s = run cs (step c s)"

text \<open>
  Which calls go through, and a bookkeeping function for traces: \<open>guess_evaluated p cs s b\<close>
  tells whether, after the calls \<open>cs\<close> made from state \<open>s\<close>, the identity \<open>p\<close> has had a guess
  evaluated since its latest successful join, where \<open>b\<close> is the answer in \<open>s\<close> itself. A
  successful \<^verbatim>\<open>joinGame\<close> of \<open>p\<close> opens a round with no guess yet, a successful
  \<^verbatim>\<open>submitGuess\<close> of \<open>p\<close> evaluates one, and nothing else changes the answer.
\<close>

fun succeeds :: "env \<times> call \<Rightarrow> game \<Rightarrow> bool" where
  "succeeds (e, JoinGame) s = (\<not> isl (joinGame e s))"
| "succeeds (e, SubmitGuess encryptedGuess inputProof) s = (\<not> isl (submitGuess e encryptedGuess inputProof s))"
| "succeeds (e, Withdraw recipient amount) s = (\<not> isl (withdraw e recipient amount s))"

fun guess_evaluated :: "address \<Rightarrow> (env \<times> call) list \<Rightarrow> game \<Rightarrow> bool \<Rightarrow> bool" where
  "guess_evaluated p [] s b = b"
| "guess_evaluated p ((e, c) # cs) s b =
     guess_evaluated p cs (step (e, c) s)
       (if msg_sender e = p \<and> succeeds (e, c) s
        then (case c of JoinGame \<Rightarrow> False | SubmitGuess _ _ \<Rightarrow> True | Withdraw _ _ \<Rightarrow> b)
        else b)"

subsection \<open>The calls written out\<close>

text \<open>
  Closed forms of what the functions above compute, each proved equal to the function
  below: the secret \<^verbatim>\<open>_generateSecret\<close> returns for a player and the incremented nonce,
  the plaintext of \<^verbatim>\<open>finalResult\<close> as a function of the plaintexts of the secret and the
  guess, the state a successful \<^verbatim>\<open>joinGame\<close> ends in and the state a successful
  \<^verbatim>\<open>submitGuess\<close> ends in.
\<close>

definition derive :: "env \<Rightarrow> address \<Rightarrow> uint256 \<Rightarrow> uint32" where
  "derive e player n = ucast (keccak256 e (abi_encodePacked (block_timestamp e)
       (blockhash e (block_number e - 1)) player n) mod 20 + 1)"

definition result_code :: "uint32 \<Rightarrow> uint32 \<Rightarrow> uint32" where
  "result_code s g = (let d = (if s < g then g else s) - (if s < g then s else g) in
      if d = 0 then 1 else if d = 1 then 2 else if d = 2 then 3 else 4)"

definition joined_state :: "env \<Rightarrow> game \<Rightarrow> game" where
  "joined_state e s =
     s\<lparr>balance := balance s + unat (msg_value e),
       s_nonce := s_nonce s + 1,
       s_players := (s_players s)(msg_sender e :=
          \<lparr>secret = \<lparr>handle = Computed (counter (coprocessor s)),
                      clear = derive e (msg_sender e) (s_nonce s + 1)\<rparr>,
           lastResult = \<lparr>handle = Computed (Suc (counter (coprocessor s))), clear = 0\<rparr>,
           joined = True\<rparr>),
       coprocessor := (coprocessor s)\<lparr>counter := Suc (Suc (counter (coprocessor s))),
          acl := insert (Computed (Suc (counter (coprocessor s))), address_this e)
                   (insert (Computed (counter (coprocessor s)), address_this e) (acl (coprocessor s)))\<rparr>,
       s_rounds := (s_rounds s)(msg_sender e := s_rounds s (msg_sender e) + 1),
       events := events s @ [PlayerJoined (msg_sender e) (s_rounds s (msg_sender e) + 1)]\<rparr>"

definition guessed_state :: "env \<Rightarrow> uint32 \<Rightarrow> game \<Rightarrow> game" where
  "guessed_state e g s =
     s\<lparr>s_players := (s_players s)(msg_sender e := (s_players s (msg_sender e))
          \<lparr>lastResult := \<lparr>handle = Computed (counter (coprocessor s) + 16),
                          clear = result_code (clear (secret (s_players s (msg_sender e)))) g\<rparr>\<rparr>),
       coprocessor := (coprocessor s)\<lparr>counter := counter (coprocessor s) + 17,
          acl := insert (Computed (counter (coprocessor s) + 16), msg_sender e)
                   (insert (Computed (counter (coprocessor s) + 16), address_this e) (acl (coprocessor s)))\<rparr>,
       events := events s @ [GuessEvaluated (msg_sender e) (s_rounds s (msg_sender e))]\<rparr>"

subsection \<open>A concrete deployment\<close>

text \<open>
  Identities, a call context and a short history to evaluate the theorems on. The
  stand-in for the hash reads all 116 bytes of its input: it adds up the four segments
  read as big-endian numbers, so it depends on the timestamp, the block hash, the
  player and the nonce. With it the first join (of alice) derives the secret 2 and the
  second (of bob) the secret 3. \<open>alice_packed\<close> is, byte by byte, the input hashed in
  the first join: timestamp 1700000016, block hash 103, player 1001, nonce 1. The
  stand-in for the input verifier accepts every input with a non-empty proof and takes
  the low 32 bits of its handle as the plaintext.
\<close>

definition deployer :: address where "deployer = 1000"
definition alice :: address where "alice = 1001"
definition bob :: address where "bob = 1021"
definition game_address :: address where "game_address = 2000"

definition test_keccak :: "byte list \<Rightarrow> bytes32" where
  "test_keccak bs = be_word (take 32 bs) + be_word (take 32 (drop 32 bs)) +
     ucast (be_word (take 20 (drop 64 bs)) :: address) + be_word (drop 84 bs)"

definition alice_packed :: "byte list" where
  "alice_packed = replicate 28 0 @ [101, 83, 241, 16] @ replicate 31 0 @ [103] @
     replicate 18 0 @ [3, 233] @ replicate 31 0 @ [1]"

definition test_env :: env where
  "test_env = \<lparr>msg_sender = deployer, msg_value = 0, block_timestamp = 1700000016,
      block_number = 5, blockhash = (\<lambda>n. n + 99), address_this = game_address,
      keccak256 = test_keccak,
      verifyInput = (\<lambda>h pr. if pr = [] then None else Some (ucast h)),
      call_value = (\<lambda>r a. True)\<rparr>"

definition env_alice :: env where
  "env_alice = test_env\<lparr>msg_sender := alice\<rparr>"

definition env_bob :: env where
  "env_bob = test_env\<lparr>msg_sender := bob\<rparr>"

definition env_join_alice :: env where
  "env_join_alice = env_alice\<lparr>msg_value := ENTRY_FEE\<rparr>"

definition env_join_bob :: env where
  "env_join_bob = env_bob\<lparr>msg_value := ENTRY_FEE\<rparr>"

definition game0 :: game where
  "game0 = constructor test_env 0 \<lparr>counter = 0, acl = {}\<rparr>"

definition game1 :: game where
  "game1 = step (env_join_alice, JoinGame) game0"

definition game2 :: game where
  "game2 = step (env_join_bob, JoinGame) game1"

definition game3 :: game where
  "game3 = step (env_alice, SubmitGuess 3 [1]) game2"

section \<open>Properties\<close>

subsection \<open>The library operations and the calls, written out\<close>

lemma FHE_ops:
  "FHE_asEuint32 v f = (\<lparr>handle = Computed (counter f), clear = v\<rparr>, f\<lparr>counter := Suc (counter f)\<rparr>)"
  "FHE_gt a b f = (\<lparr>bhandle = Computed (counter f), bclear = (clear b < clear a)\<rparr>, f\<lparr>counter := Suc (counter f)\<rparr>)"
  "FHE_eq a b f = (\<lparr>bhandle = Computed (counter f), bclear = (clear a = clear b)\<rparr>, f\<lparr>counter := Suc (counter f)\<rparr>)"
  "FHE_sub a b f = (\<lparr>handle = Computed (counter f), clear = clear a - clear b\<rparr>, f\<lparr>counter := Suc (counter f)\<rparr>)"
  "FHE_select c a b f = (\<lparr>handle = Computed (counter f), clear = (if bclear c then clear a else clear b)\<rparr>, f\<lparr>counter := Suc (counter f)\<rparr>)"
  by (simp_all add: FHE_asEuint32_def FHE_gt_def FHE_eq_def FHE_sub_def FHE_select_def fresh_def)

lemma generateSecret_cases:
  "generateSecret e p s =
     (if s_nonce s = - 1 \<or> block_number e = 0 then Inl Panic
      else Inr (derive e p (s_nonce s + 1), s\<lparr>s_nonce := s_nonce s + 1\<rparr>))"
  by (simp add: generateSecret_def derive_def Let_def)

lemma PlayerState_overwrite:
  "(st :: PlayerState)\<lparr>secret := a, lastResult := b, joined := c\<rparr> = \<lparr>secret = a, lastResult = b, joined = c\<rparr>"
  by (cases st) simp

lemma joinGame_cases:
  "joinGame e s =
     (if msg_value e \<noteq> ENTRY_FEE then Inl InvalidEntryFee
      else if s_nonce s = - 1 \<or> block_number e = 0 \<or> s_rounds s (msg_sender e) = - 1 then Inl Panic
      else Inr (\<lparr>handle = Computed (counter (coprocessor s)), clear = derive e (msg_sender e) (s_nonce s + 1)\<rparr>,
                joined_state e s))"
  by (simp add: joinGame_def generateSecret_cases FHE_ops FHE_allowThis_def FHE_allow_def emit_def
        Let_def joined_state_def PlayerState_overwrite)

lemma submitGuess_cases:
  "submitGuess e x pr s =
     (if \<not> joined (s_players s (msg_sender e)) then Inl PlayerNotJoined
      else case verifyInput e x pr of None \<Rightarrow> Inl InputProofRejected
           | Some g \<Rightarrow> Inr ((), guessed_state e g s))"
  by (simp add: submitGuess_def FHE_ops FHE_allow_def FHE_allowThis_def emit_def result_code_def
        guessed_state_def Let_def eval_nat_numeral split: option.split split del: if_split cong: if_cong)

subsection \<open>Word arithmetic\<close>

lemma secret_unat: "unat (ucast ((r :: uint256) mod 20 + 1) :: uint32) = unat r mod 20 + 1"
proof -
  have a: "unat (r mod 20) = unat r mod 20" by (simp add: unat_mod_distrib)
  have b: "unat (r mod 20 + 1) = unat r mod 20 + 1"
    using a by (simp add: unat_word_ariths)
  have c: "unat r mod 20 + 1 < 2 ^ 32"
  proof -
    have "unat r mod 20 < 20" by simp
    then show ?thesis by simp
  qed
  show ?thesis using b c by (simp add: unsigned_ucast_eq take_bit_nat_eq_self)
qed

lemma incr_unat: "(x :: uint256) \<noteq> - 1 \<Longrightarrow> unat (x + 1) = unat x + 1"
  by (metis add.commute unatSuc Suc_eq_plus1 add_eq_0_iff_both_eq_0 add.right_neutral minus_unique)

lemma diff_uint:
  fixes s g :: uint32
  shows "uint ((if s < g then g else s) - (if s < g then s else g)) = \<bar>uint g - uint s\<bar>"
proof (cases "s < g")
  case True
  then have le: "uint s \<le> uint g" by (simp add: word_less_def)
  then have "uint (g - s) = uint g - uint s" by (simp add: uint_sub_lem)
  with True le show ?thesis by simp
next
  case False
  then have le: "uint g \<le> uint s" by (simp add: word_less_def)
  then have "uint (s - g) = uint s - uint g" by (simp add: uint_sub_lem)
  with False le show ?thesis by simp
qed

lemma result_code_abs:
  "result_code s g =
     (if g = s then 1 else if \<bar>uint g - uint s\<bar> = 1 then 2
      else if \<bar>uint g - uint s\<bar> = 2 then 3 else 4)"
proof -
  define d where "d = (if s < g then g else s) - (if s < g then s else g)"
  have u: "uint d = \<bar>uint g - uint s\<bar>"
    unfolding d_def by (rule diff_uint)
  have z: "d = 0 \<longleftrightarrow> g = s"
  proof -
    have "d = 0 \<longleftrightarrow> uint d = 0" by (simp add: uint_0_iff)
    also have "\<dots> \<longleftrightarrow> uint g = uint s" using u by simp
    also have "\<dots> \<longleftrightarrow> g = s" by (simp add: word_uint_eq_iff)
    finally show ?thesis .
  qed
  have o: "d = 1 \<longleftrightarrow> \<bar>uint g - uint s\<bar> = 1"
    using u by (simp add: word_uint_eq_iff)
  have t: "d = 2 \<longleftrightarrow> \<bar>uint g - uint s\<bar> = 2"
    using u by (simp add: word_uint_eq_iff)
  have "result_code s g = (if d = 0 then 1 else if d = 1 then 2 else if d = 2 then 3 else 4)"
    by (simp add: result_code_def d_def Let_def)
  then show ?thesis by (simp add: z o t)
qed

lemma result_code_sym: "result_code s g = result_code g s"
proof -
  have "\<bar>uint g - uint s\<bar> = \<bar>uint s - uint g\<bar>" by (rule abs_minus_commute)
  then show ?thesis by (auto simp: result_code_abs)
qed

lemma result_code_range: "result_code s g \<in> {1, 2, 3, 4}"
  by (simp add: result_code_def Let_def)

lemma result_code_nonzero: "result_code s g \<noteq> 0"
  by (simp add: result_code_def Let_def)

subsection \<open>The packed bytes\<close>

text \<open>
  \<open>abi_encodePacked\<close> is the concatenation of its four arguments in the sense of
  \<open>concatenation_of\<close>, it is the only byte string that is, and so it determines each
  of the four values.
\<close>

lemma be_bytes_Suc: "be_bytes (Suc n) w = ucast (drop_bit (8 * n) w) # be_bytes n w"
  by (simp add: be_bytes_def)

lemma length_be_bytes: "length (be_bytes n w) = n"
  by (simp add: be_bytes_def)

lemma byte_step:
  "push_bit (8 * k) (push_bit 8 acc OR ucast (ucast (drop_bit (8 * k) w) :: byte)) OR take_bit (8 * k) w
      = push_bit (8 + 8 * k) (acc :: 'a::len word) OR take_bit (8 + 8 * k) (w :: 'a word)"
proof (rule bit_word_eqI)
  fix i
  assume il: "i < LENGTH('a)"
  consider "i < 8 * k" | "8 * k \<le> i" "i < 8 + 8 * k" | "8 + 8 * k \<le> i" by linarith
  then show "bit (push_bit (8 * k) (push_bit 8 acc OR ucast (ucast (drop_bit (8 * k) w) :: byte)) OR take_bit (8 * k) w) i
      = bit (push_bit (8 + 8 * k) acc OR take_bit (8 + 8 * k) w) i"
  proof cases
    case 1
    then show ?thesis by (simp add: bit_simps)
  next
    case 2
    then have "i - 8 * k < 8" by linarith
    with 2 il show ?thesis by (auto simp: bit_simps)
  next
    case 3
    then have "i - 8 * k - 8 = i - (8 + 8 * k)" "8 \<le> i - 8 * k" "\<not> i - 8 * k < 8" by linarith+
    with 3 il show ?thesis by (auto simp: bit_simps)
  qed
qed

lemma foldl_be_bytes:
  "foldl (\<lambda>acc b. push_bit 8 acc OR ucast b) (acc :: 'a::len word) (be_bytes k (w :: 'a word)) =
     push_bit (8 * k) acc OR take_bit (8 * k) w"
proof (induction k arbitrary: acc)
  case 0
  show ?case by (simp add: be_bytes_def)
next
  case (Suc k)
  let ?f = "\<lambda>(acc :: 'a word) (b :: byte). push_bit 8 acc OR ucast b"
  have "foldl ?f acc (be_bytes (Suc k) w) =
      foldl ?f (push_bit 8 acc OR ucast (ucast (drop_bit (8 * k) w) :: byte)) (be_bytes k w)"
    by (simp add: be_bytes_Suc)
  also have "\<dots> = push_bit (8 * k) (push_bit 8 acc OR ucast (ucast (drop_bit (8 * k) w) :: byte))
      OR take_bit (8 * k) w"
    by (rule Suc.IH)
  also have "\<dots> = push_bit (8 + 8 * k) acc OR take_bit (8 + 8 * k) w"
    by (rule byte_step)
  finally show ?case by simp
qed

lemma be_word_be_bytes:
  "LENGTH('a::len) \<le> 8 * n \<Longrightarrow> be_word (be_bytes n (w :: 'a word)) = w"
  by (simp add: be_word_def foldl_be_bytes take_bit_word_eq_self)

lemma be_bytes_snoc: "be_bytes (Suc n) w = be_bytes n (drop_bit 8 w) @ [ucast w]"
proof -
  have "[0..<Suc n] = 0 # map Suc [0..<n]"
    by (simp add: upt_conv_Cons map_Suc_upt del: upt_Suc)
  then show ?thesis
    by (simp add: be_bytes_def rev_map drop_bit_drop_bit add.commute del: upt_Suc)
qed

lemma be_bytes_low:
  "8 * n \<le> m \<Longrightarrow> be_bytes n (take_bit m w) = be_bytes n (w :: 'a::len word)"
proof -
  assume m: "8 * n \<le> m"
  have "(ucast (drop_bit (8 * i) (take_bit m w)) :: byte) = ucast (drop_bit (8 * i) w)" if "i < n" for i
  proof (rule bit_word_eqI)
    fix j
    assume "j < LENGTH(8)"
    then have "8 * i + j < m" using that m by simp
    then show "bit (ucast (drop_bit (8 * i) (take_bit m w)) :: byte) j = bit (ucast (drop_bit (8 * i) w) :: byte) j"
      by (simp add: bit_simps)
  qed
  then show ?thesis by (simp add: be_bytes_def)
qed

lemma be_word_snoc: "be_word (bs @ [b]) = push_bit 8 (be_word bs) OR ucast b"
  by (simp add: be_word_def)

lemma be_bytes_be_word:
  "8 * length bs \<le> LENGTH('a::len) \<Longrightarrow> be_bytes (length bs) (be_word bs :: 'a word) = bs"
proof (induction bs rule: rev_induct)
  case Nil
  show ?case by (simp add: be_bytes_def)
next
  case (snoc b bs)
  let ?X = "be_word bs :: 'a word"
  let ?W = "push_bit 8 ?X OR ucast b"
  from snoc.prems have len: "8 + 8 * length bs \<le> LENGTH('a)" by simp
  have hi: "drop_bit 8 ?W = take_bit (LENGTH('a) - 8) ?X"
  proof (rule bit_word_eqI)
    fix i
    assume "i < LENGTH('a)"
    then show "bit (drop_bit 8 ?W) i = bit (take_bit (LENGTH('a) - 8) ?X) i"
      by (auto simp: bit_simps dest: bit_imp_le_length)
  qed
  have lo: "(ucast ?W :: byte) = b"
  proof (rule bit_word_eqI)
    fix i
    assume "i < LENGTH(8)"
    with len show "bit (ucast ?W :: byte) i = bit b i"
      by (auto simp: bit_simps)
  qed
  have "be_bytes (length bs) (take_bit (LENGTH('a) - 8) ?X) = be_bytes (length bs) ?X"
    using len by (intro be_bytes_low) simp
  also have "\<dots> = bs" using len by (intro snoc.IH) simp
  finally have "be_bytes (length bs) (drop_bit 8 ?W) = bs" by (simp only: hi)
  with lo have "be_bytes (length bs) (drop_bit 8 ?W) @ [ucast ?W] = bs @ [b]" by (simp only:)
  then have "be_bytes (Suc (length bs)) ?W = bs @ [b]" by (simp only: be_bytes_snoc)
  then show ?case by (simp only: be_word_snoc length_append_singleton)
qed

lemma packed_segments:
  "take 32 (abi_encodePacked ts bh p n) = be_bytes 32 ts"
  "take 32 (drop 32 (abi_encodePacked ts bh p n)) = be_bytes 32 bh"
  "take 20 (drop 64 (abi_encodePacked ts bh p n)) = be_bytes 20 p"
  "drop 84 (abi_encodePacked ts bh p n) = be_bytes 32 n"
  by (simp_all add: abi_encodePacked_def length_be_bytes)

lemma length_abi_encodePacked: "length (abi_encodePacked ts bh p n) = 116"
  by (simp add: abi_encodePacked_def length_be_bytes)

lemma concatenation_packed: "concatenation_of (abi_encodePacked ts bh p n) ts bh p n"
  by (simp add: concatenation_of_def packed_segments length_abi_encodePacked be_word_be_bytes)

lemma concatenation_unique:
  assumes "concatenation_of bs ts bh p n"
  shows "bs = abi_encodePacked ts bh p n"
proof -
  from assms have len: "length bs = 116"
    and a: "be_word (take 32 bs) = ts" and b: "be_word (take 32 (drop 32 bs)) = bh"
    and c: "be_word (take 20 (drop 64 bs)) = p" and d: "be_word (drop 84 bs) = n"
    by (simp_all add: concatenation_of_def)
  have 1: "be_bytes 32 ts = take 32 bs"
    using be_bytes_be_word [of "take 32 bs", where 'a = 256] len a by simp
  have 2: "be_bytes 32 bh = take 32 (drop 32 bs)"
    using be_bytes_be_word [of "take 32 (drop 32 bs)", where 'a = 256] len b by simp
  have 3: "be_bytes 20 p = take 20 (drop 64 bs)"
    using be_bytes_be_word [of "take 20 (drop 64 bs)", where 'a = 160] len c by simp
  have 4: "be_bytes 32 n = drop 84 bs"
    using be_bytes_be_word [of "drop 84 bs", where 'a = 256] len d by simp
  have "bs = take 32 bs @ drop 32 bs" by simp
  also have "drop 32 bs = take 32 (drop 32 bs) @ drop 64 bs" 
    by (metis append_take_drop_id drop_drop numeral_Bit0) 
  also have "drop 64 bs = take 20 (drop 64 bs) @ drop 84 bs"
    using append_take_drop_id [of 20 "drop 64 bs"] by simp
  finally show ?thesis by (simp add: abi_encodePacked_def 1 2 3 4)
qed

lemma abi_encodePacked_inject:
  "abi_encodePacked ts bh p n = abi_encodePacked ts' bh' p' n' \<longleftrightarrow>
     ts = ts' \<and> bh = bh' \<and> p = p' \<and> n = n'"
proof
  assume eq: "abi_encodePacked ts bh p n = abi_encodePacked ts' bh' p' n'"
  have "concatenation_of (abi_encodePacked ts bh p n) ts' bh' p' n'"
    unfolding eq by (rule concatenation_packed)
  moreover have "concatenation_of (abi_encodePacked ts bh p n) ts bh p n"
    by (rule concatenation_packed)
  ultimately show "ts = ts' \<and> bh = bh' \<and> p = p' \<and> n = n'"
    by (simp add: concatenation_of_def)
qed simp

subsection \<open>The concrete deployment, evaluated\<close>

lemma test_hash: "test_keccak (abi_encodePacked ts bh p n) = ts + bh + ucast p + n"
  by (simp add: test_keccak_def packed_segments be_word_be_bytes)

lemma test_env_fields:
  "keccak256 test_env = test_keccak" "block_timestamp test_env = 1700000016"
  "block_number test_env = 5" "blockhash test_env = (\<lambda>n. n + 99)"
  by (simp_all add: test_env_def)

lemma test_envs:
  "msg_sender env_alice = alice" "msg_sender env_join_alice = alice"
  "msg_sender env_bob = bob" "msg_sender env_join_bob = bob"
  "msg_value env_alice = 0" "msg_value env_bob = 0"
  "msg_value env_join_alice = ENTRY_FEE" "msg_value env_join_bob = ENTRY_FEE"
  "block_number env_join_alice = 5" "block_number env_join_bob = 5"
  "address_this env_join_alice = game_address" "address_this env_join_bob = game_address"
  "address_this env_alice = game_address" "address_this env_bob = game_address"
  "verifyInput env_alice = (\<lambda>h pr. if pr = [] then None else Some (ucast h))"
  "verifyInput env_bob = (\<lambda>h pr. if pr = [] then None else Some (ucast h))"
  by (simp_all add: env_alice_def env_bob_def env_join_alice_def env_join_bob_def test_env_def)

lemma test_addresses:
  "alice \<noteq> bob" "bob \<noteq> alice" "alice \<noteq> game_address" "bob \<noteq> game_address"
  "alice \<noteq> deployer" "deployer \<noteq> alice" "alice \<noteq> 0" "deployer \<noteq> 0"
  by (simp_all add: alice_def bob_def game_address_def deployer_def)

lemma derive_alice: "derive env_join_alice alice 1 = 2"
  by (simp add: derive_def env_join_alice_def env_alice_def test_env_fields test_hash alice_def)

lemma derive_bob: "derive env_join_bob bob 2 = 3"
  by (simp add: derive_def env_join_bob_def env_bob_def test_env_fields test_hash bob_def)

lemma game0_fields:
  "s_owner game0 = deployer" "s_nonce game0 = 0" "s_players game0 = (\<lambda>_. zero_PlayerState)"
  "s_rounds game0 = (\<lambda>_. 0)" "balance game0 = 0" "events game0 = []"
  "coprocessor game0 = \<lparr>counter = 0, acl = {}\<rparr>"
  by (simp_all add: game0_def constructor_def test_env_def)

lemma game1_eq: "game1 = joined_state env_join_alice game0"
  by (simp add: game1_def transact_def joinGame_cases test_envs game0_fields)

lemma game1_fields:
  "s_owner game1 = deployer" "s_nonce game1 = 1"
  "s_players game1 = (\<lambda>_. zero_PlayerState)(alice :=
      \<lparr>secret = \<lparr>handle = Computed 0, clear = 2\<rparr>, lastResult = \<lparr>handle = Computed 1, clear = 0\<rparr>, joined = True\<rparr>)"
  "s_rounds game1 = (\<lambda>_. 0)(alice := 1)" "balance game1 = unat ENTRY_FEE"
  "events game1 = [PlayerJoined alice 1]"
  "coprocessor game1 = \<lparr>counter = 2, acl = {(Computed 1, game_address), (Computed 0, game_address)}\<rparr>"
  by (simp_all add: game1_eq joined_state_def test_envs game0_fields derive_alice)

lemma game2_eq: "game2 = joined_state env_join_bob game1"
  by (simp add: game2_def transact_def joinGame_cases test_envs game1_fields test_addresses)

lemma game2_fields:
  "s_owner game2 = deployer" "s_nonce game2 = 2"
  "s_players game2 = (\<lambda>_. zero_PlayerState)(alice :=
      \<lparr>secret = \<lparr>handle = Computed 0, clear = 2\<rparr>, lastResult = \<lparr>handle = Computed 1, clear = 0\<rparr>, joined = True\<rparr>,
      bob := \<lparr>secret = \<lparr>handle = Computed 2, clear = 3\<rparr>, lastResult = \<lparr>handle = Computed 3, clear = 0\<rparr>, joined = True\<rparr>)"
  "s_rounds game2 = (\<lambda>_. 0)(alice := 1, bob := 1)" "balance game2 = 2 * unat ENTRY_FEE"
  "events game2 = [PlayerJoined alice 1, PlayerJoined bob 1]"
  "counter (coprocessor game2) = 4"
  "acl (coprocessor game2) = {(Computed 3, game_address), (Computed 2, game_address), (Computed 1, game_address), (Computed 0, game_address)}"
  by (simp_all add: game2_eq joined_state_def test_envs game1_fields derive_bob test_addresses)

lemma game3_eq: "game3 = guessed_state env_alice 3 game2"
  by (simp add: game3_def transact_def submitGuess_cases test_envs game2_fields test_addresses)

lemma result_code_2_3: "result_code 2 3 = 2" "result_code 3 2 = 2"
  by (simp_all add: result_code_def)

lemma game3_fields:
  "s_players game3 alice = \<lparr>secret = \<lparr>handle = Computed 0, clear = 2\<rparr>, lastResult = \<lparr>handle = Computed 20, clear = 2\<rparr>, joined = True\<rparr>"
  "s_rounds game3 alice = 1" "s_nonce game3 = 2"
  by (simp_all add: game3_eq guessed_state_def test_envs game2_fields test_addresses result_code_2_3)

subsection \<open>Sequences of calls\<close>

lemma succeeds_join:
  "succeeds (e, JoinGame) s \<longleftrightarrow>
     msg_value e = ENTRY_FEE \<and> s_nonce s \<noteq> - 1 \<and> block_number e \<noteq> 0 \<and> s_rounds s (msg_sender e) \<noteq> - 1"
  by (simp add: joinGame_cases)

lemma succeeds_guess:
  "succeeds (e, SubmitGuess x pr) s \<longleftrightarrow>
     joined (s_players s (msg_sender e)) \<and> verifyInput e x pr \<noteq> None"
  by (simp add: submitGuess_cases split: option.split)

lemma succeeds_withdraw:
  "succeeds (e, Withdraw r a) s \<longleftrightarrow>
     msg_sender e = s_owner s \<and> r \<noteq> 0 \<and> a \<noteq> 0 \<and> unat a \<le> balance s \<and> call_value e r a"
  by (auto simp: withdraw_def Let_def)

lemma step_join:
  "step (e, JoinGame) s = (if succeeds (e, JoinGame) s then joined_state e s else s)"
  by (simp add: succeeds_join transact_def joinGame_cases)

lemma step_guess:
  "step (e, SubmitGuess x pr) s =
     (if succeeds (e, SubmitGuess x pr) s then guessed_state e (the (verifyInput e x pr)) s else s)"
  by (simp add: succeeds_guess transact_def submitGuess_cases split: option.split)

lemma step_withdraw:
  "s_rounds (step (e, Withdraw r a) s) = s_rounds s"
  "s_players (step (e, Withdraw r a) s) = s_players s"
  by (simp_all add: transact_def withdraw_def emit_def Let_def)

declare succeeds.simps [simp del] step.simps [simp del]

lemma step_rounds_mono: "unat (s_rounds s p) \<le> unat (s_rounds (step (e, c) s) p)"
proof (cases c)
  case JoinGame
  show ?thesis
  proof (cases "succeeds (e, JoinGame) s \<and> msg_sender e = p")
    case True
    then have "s_rounds s p \<noteq> - 1" by (auto simp: succeeds_join)
    then have "unat (s_rounds s p + 1) = unat (s_rounds s p) + 1" by (rule incr_unat)
    with True JoinGame show ?thesis by (simp add: step_join joined_state_def)
  next
    case False
    with JoinGame show ?thesis by (auto simp: step_join joined_state_def)
  qed
next
  case (SubmitGuess x pr)
  then show ?thesis by (simp add: step_guess guessed_state_def)
next
  case (Withdraw r a)
  then show ?thesis by (simp add: step_withdraw)
qed

lemma run_rounds_mono: "unat (s_rounds s p) \<le> unat (s_rounds (run cs s) p)"
proof (induction cs arbitrary: s)
  case Nil
  show ?case by simp
next
  case (Cons c cs)
  obtain e k where c: "c = (e, k)" by (cases c)
  have "unat (s_rounds s p) \<le> unat (s_rounds (step (e, k) s) p)" by (rule step_rounds_mono)
  also have "\<dots> \<le> unat (s_rounds (run cs (step (e, k) s)) p)" by (rule Cons.IH)
  finally show ?case by (simp add: c)
qed

lemma step_lastResult:
  "clear (lastResult (s_players (step (e, c) s) p)) =
     (if msg_sender e = p \<and> succeeds (e, c) s
      then (case c of
              JoinGame \<Rightarrow> 0
            | SubmitGuess x pr \<Rightarrow> result_code (clear (secret (s_players s p))) (the (verifyInput e x pr))
            | Withdraw r a \<Rightarrow> clear (lastResult (s_players s p)))
      else clear (lastResult (s_players s p)))"
proof (cases c)
  case JoinGame
  then show ?thesis by (simp add: step_join joined_state_def)
next
  case (SubmitGuess x pr)
  then show ?thesis by (simp add: step_guess guessed_state_def)
next
  case (Withdraw r a)
  then show ?thesis by (simp add: step_withdraw)
qed

lemma run_lastResult:
  assumes "clear (lastResult (s_players s p)) \<in> {0, 1, 2, 3, 4}"
    and "(clear (lastResult (s_players s p)) \<noteq> 0) = b"
  shows "clear (lastResult (s_players (run cs s) p)) \<in> {0, 1, 2, 3, 4} \<and>
         (clear (lastResult (s_players (run cs s) p)) \<noteq> 0) = guess_evaluated p cs s b"
  using assms
proof (induction cs arbitrary: s b)
  case Nil
  then show ?case by simp
next
  case (Cons a cs)
  obtain e c where a: "a = (e, c)" by (cases a)
  let ?b = "if msg_sender e = p \<and> succeeds (e, c) s
        then (case c of JoinGame \<Rightarrow> False | SubmitGuess _ _ \<Rightarrow> True | Withdraw _ _ \<Rightarrow> b)
        else b"
  have r: "clear (lastResult (s_players (step (e, c) s) p)) \<in> {0, 1, 2, 3, 4}"
    using Cons.prems(1) result_code_range [of "clear (secret (s_players s p))"]
    by (cases c) (auto simp: step_lastResult)
  have g: "(clear (lastResult (s_players (step (e, c) s) p)) \<noteq> 0) = ?b"
    using Cons.prems(2) by (cases c) (auto simp: step_lastResult result_code_nonzero)
  from Cons.IH [OF r g] show ?case by (simp add: a)
qed

lemma test_run:
  "run [(env_join_alice, JoinGame), (env_join_bob, JoinGame), (env_alice, SubmitGuess 3 [1])] game0 = game3"
  by (simp add: game1_def [symmetric] game2_def [symmetric] game3_def [symmetric])

lemma test_guess_evaluated:
  "guess_evaluated alice [(env_join_alice, JoinGame), (env_join_bob, JoinGame), (env_alice, SubmitGuess 3 [1])] game0 False"
  "\<not> guess_evaluated bob [(env_join_alice, JoinGame), (env_join_bob, JoinGame), (env_alice, SubmitGuess 3 [1])] game0 False"
  by (simp_all add: succeeds_join succeeds_guess test_envs test_addresses game0_fields
        game1_def [symmetric] game2_def [symmetric] game1_fields game2_fields)

subsection \<open>The claims\<close>

text \<open>
  C1. A guess submitted by a joined player with an accepted proof is evaluated, and the
  stored result decrypts to 1 if and only if the guess equals the secret, to 2 if and
  only if they differ by exactly 1, to 3 if and only if they differ by exactly 2, and
  to 4 if and only if they differ by more than 2. The evaluation is symmetric: a player
  whose secret is \<open>g\<close> and who guesses \<open>sec\<close> gets the same code. This holds for every pair
  of 32-bit values, so in particular for secrets and guesses between 1 and 20.
\<close>

theorem guess_classification:
  assumes "joined (s_players s (msg_sender e))"
    and "verifyInput e x pr = Some g"
    and "clear (secret (s_players s (msg_sender e))) = sec"
  shows "\<exists>s'. submitGuess e x pr s = Inr ((), s') \<and>
      (clear (getLatestResult s' (msg_sender e)) = 1 \<longleftrightarrow> g = sec) \<and>
      (clear (getLatestResult s' (msg_sender e)) = 2 \<longleftrightarrow> \<bar>uint g - uint sec\<bar> = 1) \<and>
      (clear (getLatestResult s' (msg_sender e)) = 3 \<longleftrightarrow> \<bar>uint g - uint sec\<bar> = 2) \<and>
      (clear (getLatestResult s' (msg_sender e)) = 4 \<longleftrightarrow> 2 < \<bar>uint g - uint sec\<bar>) \<and>
      (\<forall>e2 x2 pr2 s2.
          joined (s_players s2 (msg_sender e2)) \<and> verifyInput e2 x2 pr2 = Some sec \<and>
          clear (secret (s_players s2 (msg_sender e2))) = g \<longrightarrow>
          (\<exists>s2'. submitGuess e2 x2 pr2 s2 = Inr ((), s2') \<and>
             clear (getLatestResult s2' (msg_sender e2)) = clear (getLatestResult s' (msg_sender e))))"
proof -
  let ?s' = "guessed_state e g s"
  have run: "submitGuess e x pr s = Inr ((), ?s')"
    using assms by (simp add: submitGuess_cases)
  have code: "clear (getLatestResult ?s' (msg_sender e)) = result_code sec g"
    using assms by (simp add: getLatestResult_def guessed_state_def)
  have ne: "g \<noteq> sec \<Longrightarrow> \<bar>uint g - uint sec\<bar> \<noteq> 0"
    by (simp add: word_uint_eq_iff)
  have c1: "result_code sec g = 1 \<longleftrightarrow> g = sec"
    by (simp add: result_code_abs)
  have c2: "result_code sec g = 2 \<longleftrightarrow> \<bar>uint g - uint sec\<bar> = 1"
    by (simp add: result_code_abs)
  have c3: "result_code sec g = 3 \<longleftrightarrow> \<bar>uint g - uint sec\<bar> = 2"
    by (simp add: result_code_abs)
  have c4: "result_code sec g = 4 \<longleftrightarrow> 2 < \<bar>uint g - uint sec\<bar>"
    using ne by (auto simp: result_code_abs)
  have sym: "\<exists>s2'. submitGuess e2 x2 pr2 s2 = Inr ((), s2') \<and>
             clear (getLatestResult s2' (msg_sender e2)) = clear (getLatestResult ?s' (msg_sender e))"
    if "joined (s_players s2 (msg_sender e2))" "verifyInput e2 x2 pr2 = Some sec"
       "clear (secret (s_players s2 (msg_sender e2))) = g" for e2 x2 pr2 s2
    using that code
    by (simp add: submitGuess_cases getLatestResult_def guessed_state_def result_code_sym)
  show ?thesis
    using run code c1 c2 c3 c4 sym by (intro exI [of _ ?s']) simp
qed

theorem guess_classification_witness:
  "joined (s_players game2 (msg_sender env_alice)) \<and>
   verifyInput env_alice 3 [1] = Some 3 \<and>
   clear (secret (s_players game2 (msg_sender env_alice))) = 2 \<and>
   joined (s_players game2 (msg_sender env_bob)) \<and>
   verifyInput env_bob 2 [1] = Some 2 \<and>
   clear (secret (s_players game2 (msg_sender env_bob))) = 3 \<and>
   (\<exists>s' s2'. submitGuess env_alice 3 [1] game2 = Inr ((), s') \<and>
      clear (getLatestResult s' alice) = 2 \<and>
      submitGuess env_bob 2 [1] game2 = Inr ((), s2') \<and>
      clear (getLatestResult s2' bob) = 2)"
proof -
  have h1: "joined (s_players game2 (msg_sender env_alice))"
    by (simp add: test_envs game2_fields test_addresses)
  have h2: "verifyInput env_alice 3 [1] = Some 3"
    by (simp add: test_envs)
  have h3: "clear (secret (s_players game2 (msg_sender env_alice))) = 2"
    by (simp add: test_envs game2_fields test_addresses)
  have k1: "joined (s_players game2 (msg_sender env_bob))"
    by (simp add: test_envs game2_fields test_addresses)
  have k2: "verifyInput env_bob 2 [1] = Some 2"
    by (simp add: test_envs)
  have k3: "clear (secret (s_players game2 (msg_sender env_bob))) = 3"
    by (simp add: test_envs game2_fields test_addresses)
  from guess_classification [OF h1 h2 h3] obtain s' where
    a: "submitGuess env_alice 3 [1] game2 = Inr ((), s')" and
    b: "clear (getLatestResult s' (msg_sender env_alice)) = 2 \<longleftrightarrow> \<bar>uint (3 :: uint32) - uint (2 :: uint32)\<bar> = 1" and
    c: "\<forall>e2 x2 pr2 s2.
          joined (s_players s2 (msg_sender e2)) \<and> verifyInput e2 x2 pr2 = Some 2 \<and>
          clear (secret (s_players s2 (msg_sender e2))) = 3 \<longrightarrow>
          (\<exists>s2'. submitGuess e2 x2 pr2 s2 = Inr ((), s2') \<and>
             clear (getLatestResult s2' (msg_sender e2)) = clear (getLatestResult s' (msg_sender env_alice)))"
    by blast
  from b have b': "clear (getLatestResult s' alice) = 2" by (simp add: test_envs)
  from c k1 k2 k3 obtain s2' where
    d: "submitGuess env_bob 2 [1] game2 = Inr ((), s2')" and
    e: "clear (getLatestResult s2' (msg_sender env_bob)) = clear (getLatestResult s' (msg_sender env_alice))"
    by blast
  from e b' have e': "clear (getLatestResult s2' bob) = 2" by (simp add: test_envs)
  from h1 h2 h3 k1 k2 k3 a b' d e' show ?thesis by blast
qed

text \<open>
  C2. In every successful \<^verbatim>\<open>joinGame\<close> the secret returned and stored for the caller
  decrypts to the hash of the hashed input, reduced modulo 20, plus 1, and so lies
  between 1 and 20. The hashed input is what the packing function gives for the block
  timestamp, the hash of the previous block (the block number is not 0, so the
  subtraction does not wrap), the caller and the nonce, the nonce being the stored one
  incremented by the call before hashing. That input is the concatenation of these
  four values, and the secret is given by the hash of every byte string that is their
  concatenation: 116 bytes whose segments of 32, 32, 20 and 32 bytes read as the
  timestamp, the block hash, the caller and the incremented nonce.
\<close>

theorem secret_derivation:
  assumes "joinGame e s = Inr (c, s')"
  shows "getEncryptedSecret s' (msg_sender e) = c \<and>
     s_nonce s \<noteq> - 1 \<and> s_nonce s' = s_nonce s + 1 \<and> block_number e \<noteq> 0 \<and>
     unat (clear c) =
       unat (keccak256 e (abi_encodePacked (block_timestamp e) (blockhash e (block_number e - 1))
               (msg_sender e) (s_nonce s + 1))) mod 20 + 1 \<and>
     concatenation_of
       (abi_encodePacked (block_timestamp e) (blockhash e (block_number e - 1))
          (msg_sender e) (s_nonce s + 1))
       (block_timestamp e) (blockhash e (block_number e - 1)) (msg_sender e) (s_nonce s + 1) \<and>
     (\<forall>bs. concatenation_of bs (block_timestamp e) (blockhash e (block_number e - 1))
             (msg_sender e) (s_nonce s + 1) \<longrightarrow>
           unat (clear c) = unat (keccak256 e bs) mod 20 + 1) \<and>
     1 \<le> unat (clear c) \<and> unat (clear c) \<le> 20"
proof -
  from assms have ok: "msg_value e = ENTRY_FEE" "s_nonce s \<noteq> - 1" "block_number e \<noteq> 0"
    and c: "c = \<lparr>handle = Computed (counter (coprocessor s)), clear = derive e (msg_sender e) (s_nonce s + 1)\<rparr>"
    and s': "s' = joined_state e s"
    by (auto simp: joinGame_cases split: if_splits)
  let ?p = "abi_encodePacked (block_timestamp e) (blockhash e (block_number e - 1))
               (msg_sender e) (s_nonce s + 1)"
  have v: "unat (clear c) = unat (keccak256 e ?p) mod 20 + 1"
    by (simp add: c derive_def secret_unat)
  have p: "concatenation_of ?p (block_timestamp e) (blockhash e (block_number e - 1))
      (msg_sender e) (s_nonce s + 1)"
    by (rule concatenation_packed)
  have u: "unat (clear c) = unat (keccak256 e bs) mod 20 + 1"
    if "concatenation_of bs (block_timestamp e) (blockhash e (block_number e - 1))
          (msg_sender e) (s_nonce s + 1)" for bs
  proof -
    from that have "bs = ?p" by (rule concatenation_unique)
    with v show ?thesis by simp
  qed
  have "unat (keccak256 e ?p) mod 20 < 20" by simp
  with v have r: "1 \<le> unat (clear c) \<and> unat (clear c) \<le> 20" by simp
  have g: "getEncryptedSecret s' (msg_sender e) = c"
    by (simp add: getEncryptedSecret_def s' joined_state_def c)
  have n: "s_nonce s' = s_nonce s + 1"
    by (simp add: s' joined_state_def)
  from g ok n v p u r show ?thesis by blast
qed

theorem secret_derivation_witness:
  "joinGame env_join_alice game0 = Inr (\<lparr>handle = Computed 0, clear = 2\<rparr>, game1) \<and>
   getEncryptedSecret game1 alice = \<lparr>handle = Computed 0, clear = 2\<rparr> \<and> s_nonce game1 = 1 \<and>
   concatenation_of alice_packed (block_timestamp env_join_alice)
     (blockhash env_join_alice (block_number env_join_alice - 1))
     (msg_sender env_join_alice) (s_nonce game0 + 1) \<and>
   unat (keccak256 env_join_alice alice_packed) mod 20 + 1 = 2 \<and>
   keccak256 env_join_alice alice_packed = 1700001121"
proof -
  have h: "joinGame env_join_alice game0 = Inr (\<lparr>handle = Computed 0, clear = 2\<rparr>, game1)"
    by (simp add: joinGame_cases test_envs game0_fields derive_alice game1_eq)
  have k: "concatenation_of alice_packed 1700000016 103 1001 1"
    by code_simp
  have f: "block_timestamp env_join_alice = 1700000016"
    "blockhash env_join_alice (block_number env_join_alice - 1) = 103"
    "msg_sender env_join_alice = 1001" "s_nonce game0 + 1 = 1"
    by (simp_all add: env_join_alice_def env_alice_def test_env_fields game0_fields alice_def)
  from k f have p: "concatenation_of alice_packed (block_timestamp env_join_alice)
     (blockhash env_join_alice (block_number env_join_alice - 1))
     (msg_sender env_join_alice) (s_nonce game0 + 1)"
    by simp
  from secret_derivation [OF h] p
  have d: "getEncryptedSecret game1 (msg_sender env_join_alice) = \<lparr>handle = Computed 0, clear = 2\<rparr>"
    "s_nonce game1 = s_nonce game0 + 1"
    "unat (clear \<lparr>handle = Computed 0, clear = 2 :: uint32\<rparr>) =
       unat (keccak256 env_join_alice alice_packed) mod 20 + 1"
    by blast+
  have e: "keccak256 env_join_alice alice_packed = 1700001121"
    unfolding env_join_alice_def env_alice_def by (simp add: test_env_fields) code_simp
  from h d p e show ?thesis by (simp add: test_envs game0_fields)
qed

text \<open>
  C3. \<^verbatim>\<open>joinGame\<close> reverts with \<^verbatim>\<open>InvalidEntryFee\<close> if and only if the payment differs from
  \<^verbatim>\<open>ENTRY_FEE\<close>, in particular for one wei less and one wei more, and the reverted call
  leaves the whole state (player records, round counters, nonce and everything else) as
  it was.
\<close>

theorem invalid_fee:
  "(joinGame e s = Inl InvalidEntryFee \<longleftrightarrow> msg_value e \<noteq> ENTRY_FEE) \<and>
   (msg_value e \<noteq> ENTRY_FEE \<longrightarrow> transact (joinGame e) s = (Inl InvalidEntryFee, s)) \<and>
   (msg_value e = ENTRY_FEE - 1 \<or> msg_value e = ENTRY_FEE + 1 \<longrightarrow>
      transact (joinGame e) s = (Inl InvalidEntryFee, s))"
proof -
  have a: "joinGame e s = Inl InvalidEntryFee \<longleftrightarrow> msg_value e \<noteq> ENTRY_FEE"
    by (simp add: joinGame_cases)
  have b: "transact (joinGame e) s = (Inl InvalidEntryFee, s)" if "msg_value e \<noteq> ENTRY_FEE"
    using that by (simp add: transact_def joinGame_cases)
  have c: "msg_value e \<noteq> ENTRY_FEE" if "msg_value e = ENTRY_FEE - 1 \<or> msg_value e = ENTRY_FEE + 1"
    using that by (auto simp: ENTRY_FEE_def)
  from a b c show ?thesis by blast
qed

theorem invalid_fee_witness:
  "msg_value (env_alice\<lparr>msg_value := ENTRY_FEE - 1\<rparr>) \<noteq> ENTRY_FEE \<and>
   transact (joinGame (env_alice\<lparr>msg_value := ENTRY_FEE - 1\<rparr>)) game0 = (Inl InvalidEntryFee, game0) \<and>
   transact (joinGame (env_alice\<lparr>msg_value := ENTRY_FEE + 1\<rparr>)) game0 = (Inl InvalidEntryFee, game0) \<and>
   joinGame env_join_alice game0 \<noteq> Inl InvalidEntryFee"
  using invalid_fee [of "env_alice\<lparr>msg_value := ENTRY_FEE - 1\<rparr>" game0]
    invalid_fee [of "env_alice\<lparr>msg_value := ENTRY_FEE + 1\<rparr>" game0]
    invalid_fee [of env_join_alice game0]
  by (simp add: test_envs ENTRY_FEE_def)

text \<open>
  C4. \<^verbatim>\<open>submitGuess\<close> reverts with \<^verbatim>\<open>PlayerNotJoined\<close> if and only if the joined flag of the
  caller is false; the reverted call leaves the caller's \<^verbatim>\<open>lastResult\<close> and the whole state
  as they were; a caller whose flag is true never gets this error.
\<close>

theorem not_joined:
  "(submitGuess e x pr s = Inl PlayerNotJoined \<longleftrightarrow> \<not> hasJoined s (msg_sender e)) \<and>
   (\<not> hasJoined s (msg_sender e) \<longrightarrow>
      transact (submitGuess e x pr) s = (Inl PlayerNotJoined, s) \<and>
      getLatestResult (snd (transact (submitGuess e x pr) s)) (msg_sender e) = getLatestResult s (msg_sender e)) \<and>
   (hasJoined s (msg_sender e) \<longrightarrow> submitGuess e x pr s \<noteq> Inl PlayerNotJoined)"
  by (simp add: submitGuess_cases transact_def hasJoined_def split: option.split)

theorem not_joined_witness:
  "\<not> hasJoined game0 (msg_sender env_alice) \<and>
   transact (submitGuess env_alice 3 [1]) game0 = (Inl PlayerNotJoined, game0) \<and>
   getLatestResult game0 alice = zero_euint32 \<and>
   hasJoined game2 (msg_sender env_alice) \<and>
   submitGuess env_alice 3 [1] game2 \<noteq> Inl PlayerNotJoined"
  using not_joined [of env_alice 3 "[1]" game0] not_joined [of env_alice 3 "[1]" game2]
  by (simp add: hasJoined_def getLatestResult_def test_envs game0_fields game2_fields
        test_addresses zero_PlayerState_def)

text \<open>
  C5. A successful \<^verbatim>\<open>joinGame\<close> stores the freshly derived secret as the caller's secret,
  stores a \<^verbatim>\<open>lastResult\<close> that decrypts to the sentinel 0 and sets the joined flag.
  Whether the call succeeds does not depend on the caller's record: it succeeds whenever
  the fee is exact and no counter overflows, so a joined player, with or without an
  evaluated guess, may join again and gets the same reset.
\<close>

theorem join_resets:
  "(joinGame e s = Inr (c, s') \<longrightarrow>
      getEncryptedSecret s' (msg_sender e) = c \<and>
      clear c = ucast (keccak256 e (abi_encodePacked (block_timestamp e)
                  (blockhash e (block_number e - 1)) (msg_sender e) (s_nonce s + 1)) mod 20 + 1) \<and>
      clear (getLatestResult s' (msg_sender e)) = 0 \<and>
      hasJoined s' (msg_sender e)) \<and>
   (msg_value e = ENTRY_FEE \<and> s_nonce s \<noteq> - 1 \<and> block_number e \<noteq> 0 \<and>
    s_rounds s (msg_sender e) \<noteq> - 1 \<longrightarrow>
      (\<exists>c s'. joinGame e s = Inr (c, s')))"
  by (auto simp: joinGame_cases joined_state_def getLatestResult_def getEncryptedSecret_def
        hasJoined_def derive_def split: if_splits)

theorem join_resets_witness:
  "hasJoined game3 alice \<and> clear (getLatestResult game3 alice) = 2 \<and>
   msg_value env_join_alice = ENTRY_FEE \<and> s_nonce game3 \<noteq> - 1 \<and>
   block_number env_join_alice \<noteq> 0 \<and> s_rounds game3 (msg_sender env_join_alice) \<noteq> - 1 \<and>
   (\<exists>c s'. joinGame env_join_alice game3 = Inr (c, s') \<and>
      getEncryptedSecret s' alice = c \<and> clear c = 4 \<and>
      clear (getLatestResult s' alice) = 0 \<and> hasJoined s' alice)"
proof -
  have pre: "msg_value env_join_alice = ENTRY_FEE \<and> s_nonce game3 \<noteq> - 1 \<and>
      block_number env_join_alice \<noteq> 0 \<and> s_rounds game3 (msg_sender env_join_alice) \<noteq> - 1"
    by (simp add: test_envs game3_fields)
  have before: "hasJoined game3 alice \<and> clear (getLatestResult game3 alice) = 2"
    by (simp add: hasJoined_def getLatestResult_def game3_fields)
  have hash: "ucast (keccak256 env_join_alice (abi_encodePacked (block_timestamp env_join_alice)
      (blockhash env_join_alice (block_number env_join_alice - 1)) (msg_sender env_join_alice)
      (s_nonce game3 + 1)) mod 20 + 1) = (4 :: uint32)"
    by (simp add: env_join_alice_def env_alice_def test_env_fields test_hash game3_fields alice_def)
  from join_resets [of env_join_alice game3] pre obtain c s' where
    j: "joinGame env_join_alice game3 = Inr (c, s')"
    by blast
  with join_resets [of env_join_alice game3 c s'] hash have
    "getEncryptedSecret s' alice = c"
    "clear c = 4" "clear (getLatestResult s' alice) = 0" "hasJoined s' alice"
    by (simp_all add: test_envs)
  then have "getEncryptedSecret s' alice = c \<and> clear c = 4 \<and>
      clear (getLatestResult s' alice) = 0 \<and> hasJoined s' alice"
    by simp
  with j pre before show ?thesis by blast
qed

text \<open>
  C6. The round counter of every identity is 0 after deployment; a successful
  \<^verbatim>\<open>joinGame\<close> increments the caller's counter by exactly 1 (without wrapping around),
  from 0 to 1 at the first join, and leaves the counters of the other identities alone;
  a successful \<^verbatim>\<open>submitGuess\<close> changes no counter; and over every sequence of calls,
  successful or reverted, no counter decreases.
\<close>

theorem round_counter:
  "getRound (constructor e0 bal f) p = 0 \<and>
   (joinGame e s = Inr (c, s') \<longrightarrow>
      unat (getRound s' (msg_sender e)) = unat (getRound s (msg_sender e)) + 1 \<and>
      (getRound s (msg_sender e) = 0 \<longrightarrow> getRound s' (msg_sender e) = 1) \<and>
      (\<forall>q. q \<noteq> msg_sender e \<longrightarrow> getRound s' q = getRound s q)) \<and>
   (submitGuess e x pr s = Inr ((), s'') \<longrightarrow> getRound s'' p = getRound s p) \<and>
   unat (getRound s p) \<le> unat (getRound (run cs s) p)"
proof -
  have a: "getRound (constructor e0 bal f) p = 0"
    by (simp add: getRound_def constructor_def)
  have b: "unat (getRound s' (msg_sender e)) = unat (getRound s (msg_sender e)) + 1 \<and>
      (getRound s (msg_sender e) = 0 \<longrightarrow> getRound s' (msg_sender e) = 1) \<and>
      (\<forall>q. q \<noteq> msg_sender e \<longrightarrow> getRound s' q = getRound s q)"
    if j: "joinGame e s = Inr (c, s')"
  proof -
    from j have ok: "s_rounds s (msg_sender e) \<noteq> - 1" and s': "s' = joined_state e s"
      by (auto simp: joinGame_cases split: if_splits)
    from ok have "unat (s_rounds s (msg_sender e) + 1) = unat (s_rounds s (msg_sender e)) + 1"
      by (rule incr_unat)
    then show ?thesis by (simp add: s' getRound_def joined_state_def)
  qed
  have g: "getRound s'' p = getRound s p" if "submitGuess e x pr s = Inr ((), s'')"
    using that by (auto simp: submitGuess_cases getRound_def guessed_state_def split: if_splits option.splits)
  have m: "unat (getRound s p) \<le> unat (getRound (run cs s) p)"
    by (simp add: getRound_def run_rounds_mono)
  from a b g m show ?thesis by blast
qed

theorem round_counter_witness:
  "joinGame env_join_alice game0 = Inr (\<lparr>handle = Computed 0, clear = 2\<rparr>, game1) \<and>
   getRound game0 alice = 0 \<and> getRound game1 alice = 1 \<and> getRound game1 bob = 0 \<and>
   submitGuess env_alice 3 [1] game2 = Inr ((), game3) \<and> getRound game3 alice = 1 \<and>
   unat (getRound game0 alice) \<le> unat (getRound (run [(env_join_alice, JoinGame), (env_join_bob, JoinGame)] game0) alice)"
proof -
  have j: "joinGame env_join_alice game0 = Inr (\<lparr>handle = Computed 0, clear = 2\<rparr>, game1)"
    by (simp add: joinGame_cases test_envs game0_fields derive_alice game1_eq)
  have g: "submitGuess env_alice 3 [1] game2 = Inr ((), game3)"
    by (simp add: submitGuess_cases test_envs game2_fields test_addresses game3_eq)
  have z: "getRound game0 alice = 0" by (simp add: getRound_def game0_fields)
  have b: "bob \<noteq> msg_sender env_join_alice" by (simp add: test_envs test_addresses)
  from round_counter [of test_env 0 "\<lparr>counter = 0, acl = {}\<rparr>" alice env_join_alice game0
      "\<lparr>handle = Computed 0, clear = 2\<rparr>" game1 3 "[1]" game3
      "[(env_join_alice, JoinGame), (env_join_bob, JoinGame)]"] j z b
  have 1: "getRound game1 alice = 1" "getRound game1 bob = getRound game0 bob"
    "unat (getRound game0 alice) \<le> unat (getRound (run [(env_join_alice, JoinGame), (env_join_bob, JoinGame)] game0) alice)"
    by (simp_all add: test_envs)
  from round_counter [of test_env 0 "\<lparr>counter = 0, acl = {}\<rparr>" alice env_alice game2
      "\<lparr>handle = Computed 0, clear = 2\<rparr>" game1 3 "[1]" game3 "[]"] g
  have 2: "getRound game3 alice = getRound game2 alice" by simp
  have 3: "getRound game2 alice = 1" "getRound game0 bob = 0"
    by (simp_all add: getRound_def game2_fields game0_fields test_addresses)
  from j g z 1 2 3 show ?thesis by simp
qed

text \<open>
  C7, as stated, fails: \<^verbatim>\<open>joinGame\<close> calls \<^verbatim>\<open>FHE.allowThis\<close> on the new secret and on the reset
  result, and never \<^verbatim>\<open>FHE.allow(..., msg.sender)\<close>. After the first join of the concrete
  deployment the participant holds no grant over her secret.
\<close>

theorem join_grants_participant_counterexample:
  "joinGame env_join_alice game0 = Inr (getEncryptedSecret game1 alice, game1) \<and>
   (handle (getEncryptedSecret game1 alice), alice) \<notin> acl (coprocessor game1)"
  by (simp add: joinGame_cases test_envs game0_fields derive_alice game1_eq [symmetric]
        getEncryptedSecret_def game1_fields test_addresses)

text \<open>
  C7, amended. A successful \<^verbatim>\<open>joinGame\<close> adds exactly two grants to the access-control
  list, both to the contract itself: one over the new secret and one over the reset
  \<^verbatim>\<open>lastResult\<close>. The contract is authorized over the new secret; the participant gains
  no authorization over it from the join.
\<close>

theorem join_grants:
  assumes "joinGame e s = Inr (c, s')"
  shows "acl (coprocessor s') =
           {(handle c, address_this e), (handle (getLatestResult s' (msg_sender e)), address_this e)}
             \<union> acl (coprocessor s) \<and>
         (handle c, address_this e) \<in> acl (coprocessor s') \<and>
         (msg_sender e \<noteq> address_this e \<and> (handle c, msg_sender e) \<notin> acl (coprocessor s) \<longrightarrow>
            (handle c, msg_sender e) \<notin> acl (coprocessor s'))"
proof -
  from assms have c: "c = \<lparr>handle = Computed (counter (coprocessor s)), clear = derive e (msg_sender e) (s_nonce s + 1)\<rparr>"
    and s': "s' = joined_state e s"
    by (auto simp: joinGame_cases split: if_splits)
  have "acl (coprocessor s') =
           {(handle c, address_this e), (handle (getLatestResult s' (msg_sender e)), address_this e)}
             \<union> acl (coprocessor s)"
    by (auto simp: c s' joined_state_def getLatestResult_def)
  then show ?thesis by auto
qed

theorem join_grants_witness:
  "joinGame env_join_alice game0 = Inr (\<lparr>handle = Computed 0, clear = 2\<rparr>, game1) \<and>
   msg_sender env_join_alice \<noteq> address_this env_join_alice \<and>
   (Computed 0, alice) \<notin> acl (coprocessor game0) \<and>
   acl (coprocessor game1) = {(Computed 0, game_address), (Computed 1, game_address)} \<and>
   (Computed 0, alice) \<notin> acl (coprocessor game1)"
proof -
  have j: "joinGame env_join_alice game0 = Inr (\<lparr>handle = Computed 0, clear = 2\<rparr>, game1)"
    by (simp add: joinGame_cases test_envs game0_fields derive_alice game1_eq)
  have h: "msg_sender env_join_alice \<noteq> address_this env_join_alice"
    "(Computed 0, alice) \<notin> acl (coprocessor game0)"
    by (simp_all add: test_envs test_addresses game0_fields)
  have r: "handle (getLatestResult game1 alice) = Computed 1"
    by (simp add: getLatestResult_def game1_fields)
  from join_grants [OF j] h r j show ?thesis by (simp add: test_envs game0_fields)
qed

text \<open>
  C8. \<^verbatim>\<open>withdraw\<close> reverts with \<^verbatim>\<open>NotOwner\<close> for every caller other than the owner, whatever
  the recipient and the amount. For the owner the checks run in the order of the
  source, each reached when the earlier ones pass: \<^verbatim>\<open>InvalidRecipient\<close> for the zero
  address, \<^verbatim>\<open>InvalidAmount\<close> for an amount that is zero or above the balance,
  \<^verbatim>\<open>WithdrawalFailed\<close> when the transfer is rejected. Every revert leaves the state as it
  was. Otherwise the balance drops by the amount and a \<^verbatim>\<open>Withdrawal\<close> event is appended.
\<close>

theorem withdraw_gate:
  "(msg_sender e \<noteq> owner s \<longrightarrow> transact (withdraw e recipient amount) s = (Inl NotOwner, s)) \<and>
   (msg_sender e = owner s \<and> recipient = 0 \<longrightarrow>
      transact (withdraw e recipient amount) s = (Inl InvalidRecipient, s)) \<and>
   (msg_sender e = owner s \<and> recipient \<noteq> 0 \<and> (amount = 0 \<or> balance s < unat amount) \<longrightarrow>
      transact (withdraw e recipient amount) s = (Inl InvalidAmount, s)) \<and>
   (msg_sender e = owner s \<and> recipient \<noteq> 0 \<and> amount \<noteq> 0 \<and> unat amount \<le> balance s \<and>
    \<not> call_value e recipient amount \<longrightarrow>
      transact (withdraw e recipient amount) s = (Inl WithdrawalFailed, s)) \<and>
   (msg_sender e = owner s \<and> recipient \<noteq> 0 \<and> amount \<noteq> 0 \<and> unat amount \<le> balance s \<and>
    call_value e recipient amount \<longrightarrow>
      transact (withdraw e recipient amount) s =
        (Inr (), s\<lparr>balance := balance s - unat amount,
                   events := events s @ [Withdrawal recipient amount]\<rparr>))"
  by (simp add: withdraw_def transact_def owner_def emit_def Let_def not_less)

theorem withdraw_gate_witness:
  "msg_sender env_alice \<noteq> owner game2 \<and>
   transact (withdraw env_alice alice 1) game2 = (Inl NotOwner, game2) \<and>
   msg_sender test_env = owner game2 \<and>
   transact (withdraw test_env 0 1) game2 = (Inl InvalidRecipient, game2) \<and>
   transact (withdraw test_env alice 0) game2 = (Inl InvalidAmount, game2) \<and>
   balance game2 < unat (3 * ENTRY_FEE) \<and>
   transact (withdraw test_env alice (3 * ENTRY_FEE)) game2 = (Inl InvalidAmount, game2) \<and>
   \<not> call_value (test_env\<lparr>call_value := \<lambda>r a. False\<rparr>) alice ENTRY_FEE \<and>
   transact (withdraw (test_env\<lparr>call_value := \<lambda>r a. False\<rparr>) alice ENTRY_FEE) game2 = (Inl WithdrawalFailed, game2) \<and>
   call_value test_env alice ENTRY_FEE \<and>
   transact (withdraw test_env alice ENTRY_FEE) game2 =
     (Inr (), game2\<lparr>balance := unat ENTRY_FEE,
                     events := [PlayerJoined alice 1, PlayerJoined bob 1, Withdrawal alice ENTRY_FEE]\<rparr>)"
  using withdraw_gate [of env_alice game2 alice 1]
    withdraw_gate [of test_env game2 0 1]
    withdraw_gate [of test_env game2 alice 0]
    withdraw_gate [of test_env game2 alice "3 * ENTRY_FEE"]
    withdraw_gate [of "test_env\<lparr>call_value := \<lambda>r a. False\<rparr>" game2 alice ENTRY_FEE]
    withdraw_gate [of test_env game2 alice ENTRY_FEE]
  by (simp add: owner_def test_envs game2_fields test_addresses test_env_def ENTRY_FEE_def)

text \<open>
  C9. A successful \<^verbatim>\<open>submitGuess\<close> writes one storage field, the caller's \<^verbatim>\<open>lastResult\<close>:
  the caller's secret and joined flag, every round counter, the nonce, the record of
  every other identity, the owner and the balance are as before. (The call also emits
  an event and records grants in the library, which are not contract storage.)
\<close>

theorem guess_frame:
  assumes "submitGuess e x pr s = Inr ((), s')"
  shows "s_players s' = (s_players s)(msg_sender e :=
            (s_players s (msg_sender e))\<lparr>lastResult := getLatestResult s' (msg_sender e)\<rparr>) \<and>
         getEncryptedSecret s' (msg_sender e) = getEncryptedSecret s (msg_sender e) \<and>
         hasJoined s' (msg_sender e) = hasJoined s (msg_sender e) \<and>
         (\<forall>q. getRound s' q = getRound s q) \<and>
         s_nonce s' = s_nonce s \<and>
         (\<forall>q. q \<noteq> msg_sender e \<longrightarrow> s_players s' q = s_players s q) \<and>
         owner s' = owner s \<and> balance s' = balance s"
  using assms
  by (auto simp: submitGuess_cases guessed_state_def getLatestResult_def getEncryptedSecret_def
        hasJoined_def getRound_def owner_def split: if_splits option.splits)

theorem guess_frame_witness:
  "submitGuess env_alice 3 [1] game2 = Inr ((), game3) \<and>
   getEncryptedSecret game3 alice = getEncryptedSecret game2 alice \<and>
   hasJoined game3 alice \<and> getRound game3 alice = 1 \<and> s_nonce game3 = 2 \<and>
   bob \<noteq> msg_sender env_alice \<and> s_players game3 bob = s_players game2 bob"
proof -
  have g: "submitGuess env_alice 3 [1] game2 = Inr ((), game3)"
    by (simp add: submitGuess_cases test_envs game2_fields test_addresses game3_eq)
  have b: "bob \<noteq> msg_sender env_alice" by (simp add: test_envs test_addresses)
  from guess_frame [OF g] b have
    "getEncryptedSecret game3 alice = getEncryptedSecret game2 alice"
    "hasJoined game3 alice = hasJoined game2 alice"
    "getRound game3 alice = getRound game2 alice" "s_nonce game3 = s_nonce game2"
    "s_players game3 bob = s_players game2 bob"
    by (simp_all add: test_envs)
  with g b show ?thesis
    by (simp add: hasJoined_def getRound_def game2_fields test_addresses)
qed

text \<open>
  C10. \<^verbatim>\<open>submitGuess\<close> stores a code in \<open>{1, 2, 3, 4}\<close> for every 32-bit guess, and
  \<^verbatim>\<open>joinGame\<close> stores the sentinel 0. Hence after every sequence of calls from deployment
  the \<^verbatim>\<open>lastResult\<close> of every identity decrypts to a value in \<open>{0, 1, 2, 3, 4}\<close>, and it
  decrypts to 0 exactly when the identity has had no guess evaluated since its latest
  successful join (or has never joined).
\<close>

theorem result_codes:
  "(submitGuess e x pr s = Inr ((), s') \<longrightarrow> clear (getLatestResult s' (msg_sender e)) \<in> {1, 2, 3, 4}) \<and>
   (joinGame e s = Inr (c, s'') \<longrightarrow> clear (getLatestResult s'' (msg_sender e)) = 0) \<and>
   clear (getLatestResult (run cs (constructor e0 bal f)) p) \<in> {0, 1, 2, 3, 4} \<and>
   (clear (getLatestResult (run cs (constructor e0 bal f)) p) = 0 \<longleftrightarrow>
      \<not> guess_evaluated p cs (constructor e0 bal f) False)"
proof -
  have a: "clear (getLatestResult s' (msg_sender e)) \<in> {1, 2, 3, 4}"
    if "submitGuess e x pr s = Inr ((), s')"
  proof -
    from that obtain g where "s' = guessed_state e g s"
      by (auto simp: submitGuess_cases split: if_splits option.splits)
    then show ?thesis
      using result_code_range [of "clear (secret (s_players s (msg_sender e)))" g]
      by (simp add: getLatestResult_def guessed_state_def)
  qed
  have b: "clear (getLatestResult s'' (msg_sender e)) = 0" if "joinGame e s = Inr (c, s'')"
    using that by (auto simp: joinGame_cases joined_state_def getLatestResult_def split: if_splits)
  let ?s0 = "constructor e0 bal f"
  have i: "clear (lastResult (s_players ?s0 p)) \<in> {0, 1, 2, 3, 4}"
    "(clear (lastResult (s_players ?s0 p)) \<noteq> 0) = False"
    by (simp_all add: constructor_def zero_PlayerState_def zero_euint32_def)
  from run_lastResult [OF i, of cs] have r:
    "clear (getLatestResult (run cs ?s0) p) \<in> {0, 1, 2, 3, 4}"
    "(clear (getLatestResult (run cs ?s0) p) = 0) = (\<not> guess_evaluated p cs ?s0 False)"
    by (auto simp: getLatestResult_def)
  from a b r show ?thesis by blast
qed

theorem result_codes_witness:
  "submitGuess env_alice 4000000000 [1] game2 = Inr ((), guessed_state env_alice 4000000000 game2) \<and>
   clear (getLatestResult (guessed_state env_alice 4000000000 game2) alice) = 4 \<and>
   joinGame env_join_alice game0 = Inr (\<lparr>handle = Computed 0, clear = 2\<rparr>, game1) \<and>
   clear (getLatestResult game1 alice) = 0 \<and>
   clear (getLatestResult game3 alice) = 2 \<and>
   guess_evaluated alice [(env_join_alice, JoinGame), (env_join_bob, JoinGame), (env_alice, SubmitGuess 3 [1])] game0 False \<and>
   clear (getLatestResult game3 bob) = 0 \<and>
   \<not> guess_evaluated bob [(env_join_alice, JoinGame), (env_join_bob, JoinGame), (env_alice, SubmitGuess 3 [1])] game0 False"
proof -
  let ?cs = "[(env_join_alice, JoinGame), (env_join_bob, JoinGame), (env_alice, SubmitGuess 3 [1])]"
  have g: "submitGuess env_alice 4000000000 [1] game2 = Inr ((), guessed_state env_alice 4000000000 game2)"
    by (simp add: submitGuess_cases test_envs game2_fields test_addresses)
  have j: "joinGame env_join_alice game0 = Inr (\<lparr>handle = Computed 0, clear = 2\<rparr>, game1)"
    by (simp add: joinGame_cases test_envs game0_fields derive_alice game1_eq)
  have v: "clear (getLatestResult (guessed_state env_alice 4000000000 game2) alice) = 4"
    by (simp add: getLatestResult_def guessed_state_def test_envs game2_fields test_addresses result_code_def)
  have a3: "clear (getLatestResult game3 alice) = 2"
    by (simp add: getLatestResult_def game3_fields)
  have "clear (getLatestResult (run ?cs game0) bob) = 0 \<longleftrightarrow> \<not> guess_evaluated bob ?cs game0 False"
    using result_codes [of env_alice 4000000000 "[1]" game2 "guessed_state env_alice 4000000000 game2"
      "\<lparr>handle = Computed 0, clear = 2\<rparr>" game1 ?cs test_env 0 "\<lparr>counter = 0, acl = {}\<rparr>" bob]
    unfolding game0_def by blast
  then have b3: "clear (getLatestResult game3 bob) = 0"
    unfolding test_run using test_guess_evaluated(2) by blast
  from result_codes [of env_join_alice 4000000000 "[1]" game0 "guessed_state env_alice 4000000000 game2"
      "\<lparr>handle = Computed 0, clear = 2\<rparr>" game1 ?cs test_env 0 "\<lparr>counter = 0, acl = {}\<rparr>" alice] j
  have j0: "clear (getLatestResult game1 alice) = 0"
    by (simp add: test_envs)
  from g v j j0 a3 b3 test_guess_evaluated show ?thesis by simp
qed

end
